theory Spec2Isabelle
  imports Complex_Main "HOL-Library.Signed_Division"
begin

section \<open>The oscillator's wave-shape routines and band selection\<close>

text \<open>
  The embedding follows the inline member functions of class \<open>Oscillator\<close>
  (Oscillator.h): the closed-form wave-shape routines \<open>sinSample\<close> ... \<open>expSample\<close>,
  the band selector \<open>waveTableBandFromFreq\<close> with its inverse
  \<open>freqFromWaveTableBand\<close>, and the wavetable lookup \<open>wtSample\<close>.

  Numbers. A C++ \<open>float\<close> (\<open>sample_t\<close> is one) is modelled as a \<open>real\<close>, and
  \<open>float_round\<close> is the rounding that every binary32 operation applies to its exact
  result: 24 significant bits, to nearest, ties to even. The exponent is unbounded:
  overflow, subnormal numbers, infinities and NaN are not values of the model.
  In \<open>expSample\<close> and in the band selector and its inverse every arithmetic
  operation is the rounded one, and \<open>log2f\<close> and \<open>powf\<close> are the correctly rounded
  functions: what is stated of these routines depends on the rounding. The other
  routines are written in exact arithmetic.

  The C++ \<open>int\<close> and \<open>f_cnt_t\<close> are modelled as \<open>int\<close>; integer division and
  remainder are the truncating ones of C++ (\<open>sdiv\<close>, \<open>smod\<close>), and the cast of a
  float to an integer truncates toward zero. A float whose integer part does not
  fit the integer type is outside the model. The cast of an infinite or NaN float
  is undefined in C++; the band selector reaches it at a non-positive frequency,
  and the integer it gives there is a parameter, \<open>nonfinite_cast\<close>.
\<close>

type_synonym sample_t = real

subsection \<open>Constants\<close>

text \<open>
  The header OscillatorConstants.h is not among the sources, so the constants of
  namespace \<open>OscillatorConstants\<close> that the routines read are parameters, collected
  in a record. Theorems state what they need of them.
\<close>

record OscillatorConstants =
  WAVETABLE_LENGTH :: int
  SEMITONES_PER_TABLE :: int
  WAVE_TABLES_PER_WAVEFORM_COUNT :: int

subsection \<open>Rounding of binary32 arithmetic\<close>

definition round_half_even :: "real \<Rightarrow> int" where
  \<comment> \<open>The integer nearest to \<open>t\<close>; of two equally near ones, the even one.\<close>
  "round_half_even t =
     (let f = \<lfloor>t\<rfloor>; d = t - of_int f
      in if d < 1/2 then f else if 1/2 < d then f + 1 else if even f then f else f + 1)"

definition float_ulp :: "real \<Rightarrow> real" where
  \<comment> \<open>The spacing of the binary32 numbers in the binade of \<open>x\<close>:
      \<open>2 ^ (e - 23)\<close> for \<open>2 ^ e \<le> \<bar>x\<bar> < 2 ^ (e + 1)\<close>.\<close>
  "float_ulp x = 2 powr (of_int \<lfloor>log 2 \<bar>x\<bar>\<rfloor> - 23)"

definition float_round :: "real \<Rightarrow> real" where
  \<comment> \<open>The binary32 number nearest to \<open>x\<close> (ties to even).\<close>
  "float_round x =
     (if x = 0 then 0 else of_int (round_half_even (x / float_ulp x)) * float_ulp x)"

subsection \<open>Helpers of the math headers\<close>

definition static_cast_int :: "real \<Rightarrow> int" where
  \<comment> \<open>\<open>static_cast<int>(x)\<close> on a float: the integer part, truncated toward zero.\<close>
  "static_cast_int x = (if 0 \<le> x then \<lfloor>x\<rfloor> else \<lceil>x\<rceil>)"

definition fraction :: "real \<Rightarrow> real" where
  \<comment> \<open>Modelled from the spec: the helper \<open>fraction\<close> (lmms_math.h is not among the
      sources), the fractional part of a float: the value minus its integer part,
      the integer part being the one the cast to \<open>int\<close> gives. The difference of a
      float and its integer part is a float: no rounding.\<close>
  "fraction x = x - of_int (static_cast_int x)"

definition linearInterpolate :: "real \<Rightarrow> real \<Rightarrow> real \<Rightarrow> real" where
  \<comment> \<open>Modelled from the spec: the helper \<open>linearInterpolate\<close> (interpolation.h is not
      among the sources), the linear interpolation between two adjacent samples
      \<open>v0\<close> and \<open>v1\<close> at the fractional position \<open>x\<close>.\<close>
  "linearInterpolate v0 v1 x = x * (v1 - v0) + v0"

definition ceil :: "real \<Rightarrow> real" where
  \<comment> \<open>\<open>ceil\<close> of math.h: the least integer not below \<open>x\<close>, as a float.\<close>
  "ceil x = of_int \<lceil>x\<rceil>"

definition log2f :: "real \<Rightarrow> real option" where
  \<comment> \<open>\<open>log2f\<close> of math.h: the binary logarithm of a positive float, rounded to a
      float. At zero the C function returns minus infinity and at a negative
      argument NaN, neither of them a number: \<open>None\<close>.\<close>
  "log2f x = (if 0 < x then Some (float_round (log 2 x)) else None)"

definition powf :: "real \<Rightarrow> real \<Rightarrow> real" where
  \<comment> \<open>\<open>powf\<close> of math.h for a positive base (the source calls it with base 2
      only): the power, rounded to a float.\<close>
  "powf x y = float_round (x powr y)"

definition sinf :: "real \<Rightarrow> real" where
  "sinf x = sin x"

subsection \<open>The wave-shape routines\<close>

text \<open>
  \<open>F_2PI\<close> is a constant of lmms_constants.h, which is not among the sources: the
  float nearest to \<open>2 * pi\<close>. It is the first parameter of \<open>sinSample\<close>.
\<close>

definition sinSample :: "real \<Rightarrow> real \<Rightarrow> sample_t" where
  "sinSample F_2PI sample = sinf (sample * F_2PI)"

definition triangleSample :: "real \<Rightarrow> sample_t" where
  "triangleSample sample =
     (let ph = fraction sample in
      if ph \<le> 0.25 then ph * 4.0
      else if ph \<le> 0.75 then 2.0 - ph * 4.0
      else ph * 4.0 - 4.0)"

definition sawSample :: "real \<Rightarrow> sample_t" where
  "sawSample sample = - 1.0 + fraction sample * 2.0"

definition squareSample :: "real \<Rightarrow> sample_t" where
  "squareSample sample = (if fraction sample > 0.5 then - 1.0 else 1.0)"

definition moogSawSample :: "real \<Rightarrow> sample_t" where
  "moogSawSample sample =
     (let ph = fraction sample in
      if ph < 0.5 then - 1.0 + ph * 4.0
      else 1.0 - 2.0 * ph)"

text \<open>
  \<open>expSample\<close> with the rounding of each of its operations: the reflection
  \<open>1.0f - ph\<close>, then \<open>-1.0f + 8.0f * ph * ph\<close>, which C++ reads as
  \<open>-1.0f + ((8.0f * ph) * ph)\<close>.
\<close>

definition expSample :: "real \<Rightarrow> sample_t" where
  "expSample sample =
     (let ph = fraction sample;
          ph = (if ph > 0.5 then float_round (1.0 - ph) else ph)
      in float_round (- 1.0 + float_round (float_round (8.0 * ph) * ph)))"

subsection \<open>Band selection\<close>

text \<open>
  \<open>waveTableBandFromFreq\<close> computes \<open>12.0f * log2f(freq / 440.0f)\<close> in floats: the
  quotient, the logarithm and the product are each rounded. Where \<open>log2f\<close> has no
  number to return, the product and its ceiling are infinite or NaN and the cast
  gives \<open>nonfinite_cast\<close>.
\<close>

definition waveTableBandFromFreq :: "OscillatorConstants \<Rightarrow> int \<Rightarrow> real \<Rightarrow> int" where
  "waveTableBandFromFreq K nonfinite_cast freq =
     (let semitones =
            (case log2f (float_round (freq / 440.0)) of
               Some l \<Rightarrow> static_cast_int (ceil (float_round (12.0 * l)))
             | None \<Rightarrow> nonfinite_cast);
          band = (69 + semitones) sdiv SEMITONES_PER_TABLE K
      in if band \<le> 1 then 1
         else if band \<ge> WAVE_TABLES_PER_WAVEFORM_COUNT K - 1
              then WAVE_TABLES_PER_WAVEFORM_COUNT K - 1
              else band)"

text \<open>
  \<open>freqFromWaveTableBand\<close>: the integer \<open>band * SEMITONES_PER_TABLE\<close> is converted
  to a float, and the subtraction, the division, \<open>powf\<close> and the product are each
  rounded.
\<close>

definition freqFromWaveTableBand :: "OscillatorConstants \<Rightarrow> int \<Rightarrow> real" where
  "freqFromWaveTableBand K band =
     float_round (440.0 * powf 2.0
       (float_round
          (float_round (float_round (of_int (band * SEMITONES_PER_TABLE K)) - 69.0) / 12.0)))"

subsection \<open>Wavetable lookup\<close>

text \<open>
  Of the oscillator's members, \<open>wtSample\<close> reads the frequency only; the record
  keeps the float and bool members of the class.
\<close>

record Oscillator =
  m_freq :: real
  m_detuning :: real
  m_volume :: real
  m_ext_phaseOffset :: real
  m_phaseOffset :: real
  m_phase :: real
  m_useWaveTable :: bool

text \<open>
  A table is \<open>sample_t table[WAVE_TABLES_PER_WAVEFORM_COUNT][WAVETABLE_LENGTH]\<close>,
  modelled as a list of rows. A read outside the array is undefined in C++; here it
  is the result \<open>None\<close>.
\<close>

definition table_at :: "sample_t list list \<Rightarrow> int \<Rightarrow> int \<Rightarrow> sample_t option" where
  "table_at table band i =
     (if 0 \<le> band \<and> band < int (length table)
      then (if 0 \<le> i \<and> i < int (length (table ! nat band))
            then Some (table ! nat band ! nat i)
            else None)
      else None)"

definition table_ok :: "OscillatorConstants \<Rightarrow> sample_t list list \<Rightarrow> bool" where
  \<comment> \<open>The table has the dimensions of its declaration.\<close>
  "table_ok K table \<longleftrightarrow>
     int (length table) = WAVE_TABLES_PER_WAVEFORM_COUNT K \<and>
     list_all (\<lambda>row. int (length row) = WAVETABLE_LENGTH K) table"

text \<open>The locals \<open>frame\<close>, \<open>f1\<close> and \<open>f2\<close> of \<open>wtSample\<close>, each as the source computes it.\<close>

definition wtSample_frame :: "OscillatorConstants \<Rightarrow> real \<Rightarrow> real" where
  "wtSample_frame K sample = sample * of_int (WAVETABLE_LENGTH K)"

definition wtSample_f1 :: "OscillatorConstants \<Rightarrow> real \<Rightarrow> int" where
  "wtSample_f1 K sample =
     (let f1 = static_cast_int (wtSample_frame K sample) smod WAVETABLE_LENGTH K
      in if f1 < 0 then f1 + WAVETABLE_LENGTH K else f1)"

definition wtSample_f2 :: "OscillatorConstants \<Rightarrow> real \<Rightarrow> int" where
  "wtSample_f2 K sample =
     (let f1 = wtSample_f1 K sample
      in if f1 < WAVETABLE_LENGTH K - 1 then f1 + 1 else 0)"

definition wtSample ::
  "OscillatorConstants \<Rightarrow> int \<Rightarrow> Oscillator \<Rightarrow> sample_t list list \<Rightarrow> real
   \<Rightarrow> sample_t option" where
  "wtSample K nonfinite_cast osc table sample =
     (let frame = wtSample_frame K sample;
          f1 = wtSample_f1 K sample;
          f2 = wtSample_f2 K sample;
          band = waveTableBandFromFreq K nonfinite_cast (m_freq osc)
      in case table_at table band f1 of
           None \<Rightarrow> None
         | Some v0 \<Rightarrow>
             (case table_at table band f2 of
                None \<Rightarrow> None
              | Some v1 \<Rightarrow> Some (linearInterpolate v0 v1 (fraction frame))))"

subsection \<open>The table lookup in the spec's words\<close>

definition tableSample_spec ::
  "OscillatorConstants \<Rightarrow> int \<Rightarrow> sample_t list list \<Rightarrow> real \<Rightarrow> real \<Rightarrow> sample_t" where
  \<comment> \<open>The spec's \<open>tableSample\<close>: the band comes from the band selector, the fractional
      table index is \<open>pos\<close>, and the result interpolates linearly between the table
      sample at the integer part of \<open>pos\<close> and its successor, wrapping at the table
      boundary. Written from the spec, to be compared with \<open>wtSample\<close>.\<close>
  "tableSample_spec K nonfinite_cast table freq p =
     (let band = waveTableBandFromFreq K nonfinite_cast freq;
          pos = p * of_int (WAVETABLE_LENGTH K);
          i = \<lfloor>pos\<rfloor> mod WAVETABLE_LENGTH K;
          j = (i + 1) mod WAVETABLE_LENGTH K;
          w = frac pos
      in (1 - w) * (table ! nat band ! nat i) + w * (table ! nat band ! nat j))"

subsection \<open>A small configuration for evaluation\<close>

text \<open>
  Concrete values on which the routines are evaluated below: one band per semitone,
  128 bands, and tables of four samples, the sample \<open>i\<close> of band \<open>b\<close> being
  \<open>4 * b + i\<close>. The cast of a non-finite float gives the least 32-bit integer, as
  the conversion instruction of x86 does.
\<close>

definition example_constants :: OscillatorConstants where
  "example_constants =
     \<lparr>WAVETABLE_LENGTH = 4, SEMITONES_PER_TABLE = 1, WAVE_TABLES_PER_WAVEFORM_COUNT = 128\<rparr>"

definition example_cast :: int where
  "example_cast = - 2147483648"

definition example_table :: "sample_t list list" where
  "example_table = map (\<lambda>b. map (\<lambda>i. real (4 * b + i)) [0..<4]) [0..<128]"

definition example_osc :: Oscillator where
  "example_osc =
     \<lparr>m_freq = 440, m_detuning = 0, m_volume = 1, m_ext_phaseOffset = 0,
      m_phaseOffset = 0, m_phase = 0, m_useWaveTable = True\<rparr>"

lemmas example_defs =
  example_constants_def example_table_def example_osc_def example_cast_def

lemmas wtSample_defs =
  wtSample_f1_def wtSample_f2_def wtSample_frame_def table_at_def
  linearInterpolate_def fraction_def static_cast_int_def Let_def
  signed_modulo_int_def

section \<open>Properties\<close>

subsection \<open>Rounding\<close>

lemma round_half_even_cases:
  "round_half_even t = \<lfloor>t\<rfloor> \<or> round_half_even t = \<lfloor>t\<rfloor> + 1"
  by (simp add: round_half_even_def Let_def)

lemma round_half_even_error: "\<bar>of_int (round_half_even t) - t\<bar> \<le> 1/2"
proof -
  have "of_int \<lfloor>t\<rfloor> \<le> t" and "t < of_int \<lfloor>t\<rfloor> + 1"
    by linarith+
  then show ?thesis
    by (auto simp: round_half_even_def Let_def abs_le_iff)
qed

lemma round_half_even_of_int: "round_half_even (of_int n) = n"
  by (simp add: round_half_even_def)

lemma round_half_even_mono:
  assumes "t \<le> s"
  shows "round_half_even t \<le> round_half_even s"
proof (cases "\<lfloor>t\<rfloor> = \<lfloor>s\<rfloor>")
  case True
  then show ?thesis
    using assms by (auto simp: round_half_even_def Let_def)
next
  case False
  then have "\<lfloor>t\<rfloor> + 1 \<le> \<lfloor>s\<rfloor>"
    using floor_mono [OF assms] by linarith
  moreover have "round_half_even t \<le> \<lfloor>t\<rfloor> + 1"
    using round_half_even_cases [of t] by linarith
  moreover have "\<lfloor>s\<rfloor> \<le> round_half_even s"
    using round_half_even_cases [of s] by linarith
  ultimately show ?thesis
    by linarith
qed

lemma round_half_even_minus: "round_half_even (- t) = - round_half_even t"
proof (cases "t \<in> \<int>")
  case True
  then obtain n where t: "t = of_int n"
    by (auto elim: Ints_cases)
  then have "- t = of_int (- n)"
    by simp
  then show ?thesis
    unfolding t by (simp only: round_half_even_of_int)
next
  case False
  then have ne: "t \<noteq> of_int \<lfloor>t\<rfloor>"
    by (metis Ints_of_int)
  then have fl: "\<lfloor>- t\<rfloor> = - \<lfloor>t\<rfloor> - 1"
    by (simp add: floor_minus ceiling_altdef)
  show ?thesis
    by (auto simp: round_half_even_def Let_def fl)
qed

lemma float_ulp_pos: "0 < float_ulp x"
  by (simp add: float_ulp_def)

lemma float_ulp_binade:
  assumes "2 powr of_int k \<le> \<bar>x\<bar>" and "\<bar>x\<bar> < 2 powr (of_int k + 1)"
  shows "float_ulp x = 2 powr (of_int k - 23)"
proof -
  have "(0::real) < 2 powr of_int k"
    by simp
  then have pos: "0 < \<bar>x\<bar>"
    using assms(1) by linarith
  have "of_int k \<le> log 2 \<bar>x\<bar>"
    using assms(1) pos by (simp add: le_log_iff)
  moreover have "log 2 \<bar>x\<bar> < of_int k + 1"
    using assms(2) pos by (simp add: log_less_iff)
  ultimately have "\<lfloor>log 2 \<bar>x\<bar>\<rfloor> = k"
    by (simp add: floor_eq_iff)
  then show ?thesis
    by (simp add: float_ulp_def)
qed

lemma float_binade:
  assumes "x \<noteq> 0"
  shows "2 ^ 23 * float_ulp x \<le> \<bar>x\<bar>" and "\<bar>x\<bar> < 2 ^ 24 * float_ulp x"
proof -
  define k where "k = \<lfloor>log 2 \<bar>x\<bar>\<rfloor>"
  have pos: "0 < \<bar>x\<bar>"
    using assms by simp
  have "of_int k \<le> log 2 \<bar>x\<bar>" and "log 2 \<bar>x\<bar> < of_int k + 1"
    unfolding k_def by linarith+
  then have b: "2 powr of_int k \<le> \<bar>x\<bar>" "\<bar>x\<bar> < 2 powr (of_int k + 1)"
    using pos by (simp_all add: le_log_iff log_less_iff)
  have u: "float_ulp x = 2 powr (of_int k - 23)"
    by (simp add: float_ulp_def k_def)
  have "2 ^ 23 * float_ulp x = 2 powr of_int k"
    unfolding u by (simp add: powr_diff)
  moreover have "2 ^ 24 * float_ulp x = 2 powr (of_int k + 1)"
    unfolding u by (simp add: powr_diff powr_add)
  ultimately show "2 ^ 23 * float_ulp x \<le> \<bar>x\<bar>" and "\<bar>x\<bar> < 2 ^ 24 * float_ulp x"
    using b by simp_all
qed

lemma float_round_zero: "float_round 0 = 0"
  by (simp add: float_round_def)

lemma float_round_minus: "float_round (- x) = - float_round x"
  by (simp add: float_round_def float_ulp_def round_half_even_minus)

lemma float_round_error_ulp: "\<bar>float_round x - x\<bar> \<le> float_ulp x / 2"
proof (cases "x = 0")
  case True
  then show ?thesis
    using float_ulp_pos [of x] by (simp add: float_round_def)
next
  case False
  define u where "u = float_ulp x"
  have u: "0 < u"
    by (simp add: u_def float_ulp_pos)
  have "float_round x - x = (of_int (round_half_even (x / u)) - x / u) * u"
    using False u by (simp add: float_round_def u_def algebra_simps)
  then have "\<bar>float_round x - x\<bar> = \<bar>of_int (round_half_even (x / u)) - x / u\<bar> * u"
    using u by (simp add: abs_mult)
  also have "\<dots> \<le> (1/2) * u"
    using round_half_even_error [of "x / u"] u by (intro mult_right_mono) auto
  finally show ?thesis
    by (simp add: u_def)
qed

text \<open>The relative error of a rounding is at most \<open>2 ^ -24\<close>.\<close>

lemma float_round_error: "\<bar>float_round x - x\<bar> \<le> \<bar>x\<bar> / 2 ^ 24"
proof (cases "x = 0")
  case True
  then show ?thesis
    by (simp add: float_round_def)
next
  case False
  have "float_ulp x / 2 \<le> \<bar>x\<bar> / 2 ^ 24"
    using float_binade(1) [OF False] by simp
  then show ?thesis
    using float_round_error_ulp [of x] by linarith
qed

lemma float_round_abs_error:
  assumes "\<bar>x\<bar> \<le> B"
  shows "\<bar>float_round x - x\<bar> \<le> B / 16777216"
proof -
  have "\<bar>x\<bar> / 2 ^ 24 \<le> B / 2 ^ 24"
    using assms by (simp add: divide_right_mono)
  then show ?thesis
    using float_round_error [of x] by simp
qed

lemma float_round_eval:
  assumes "2 ^ 23 * 2 powr of_int e \<le> \<bar>x\<bar>" and "\<bar>x\<bar> < 2 ^ 24 * 2 powr of_int e"
  shows "float_round x = of_int (round_half_even (x / 2 powr of_int e)) * 2 powr of_int e"
proof -
  have "2 ^ 23 * 2 powr of_int e = (2::real) powr of_int (e + 23)"
    by (simp add: powr_add)
  moreover have "2 ^ 24 * 2 powr of_int e = (2::real) powr (of_int (e + 23) + 1)"
    by (simp add: powr_add)
  ultimately have "float_ulp x = 2 powr (of_int (e + 23) - 23)"
    using assms by (intro float_ulp_binade) simp_all
  then have u: "float_ulp x = 2 powr of_int e"
    by simp
  have "(0::real) < 2 ^ 23 * 2 powr of_int e"
    by simp
  then have "x \<noteq> 0"
    using assms(1) by auto
  then show ?thesis
    by (simp add: float_round_def u)
qed

text \<open>
  Evaluation of a rounding, given the binade: with \<open>2 ^ 23 \<le> \<bar>x\<bar> * 2 ^ n < 2 ^ 24\<close>
  the spacing is \<open>1 / 2 ^ n\<close>.
\<close>

lemma float_round_eval_down:
  assumes "2 ^ 23 \<le> \<bar>x\<bar> * 2 ^ n" and "\<bar>x\<bar> * 2 ^ n < 2 ^ 24"
  shows "float_round x = of_int (round_half_even (x * 2 ^ n)) / 2 ^ n"
proof -
  have e: "2 powr of_int (- int n) = 1 / (2::real) ^ n"
    by (simp add: powr_minus powr_realpow inverse_eq_divide)
  have a: "2 ^ 23 * 2 powr of_int (- int n) \<le> \<bar>x\<bar>"
    unfolding e using assms(1) by (simp add: field_simps)
  have b: "\<bar>x\<bar> < 2 ^ 24 * 2 powr of_int (- int n)"
    unfolding e using assms(2) by (simp add: field_simps)
  show ?thesis
    using float_round_eval [OF a b] unfolding e by simp
qed

lemma float_round_pos_range:
  assumes "0 < x"
  shows "2 ^ 23 * float_ulp x \<le> float_round x"
    and "float_round x \<le> 2 ^ 24 * float_ulp x"
proof -
  define u where "u = float_ulp x"
  have u: "0 < u"
    by (simp add: u_def float_ulp_pos)
  have x: "x \<noteq> 0"
    using assms by simp
  have b: "2 ^ 23 * u \<le> x" "x < 2 ^ 24 * u"
    using float_binade [OF x] assms by (simp_all add: u_def)
  then have t: "of_int (2 ^ 23) \<le> x / u" "x / u \<le> of_int (2 ^ 24)"
    using u by (simp_all add: field_simps)
  have "2 ^ 23 \<le> round_half_even (x / u)"
    using round_half_even_mono [OF t(1)] by (simp only: round_half_even_of_int)
  then have "of_int (2 ^ 23) \<le> (of_int (round_half_even (x / u)) :: real)"
    by (simp only: of_int_le_iff)
  then have "(2 ^ 23 :: real) \<le> of_int (round_half_even (x / u))"
    by simp
  then have "2 ^ 23 * u \<le> of_int (round_half_even (x / u)) * u"
    using u by (intro mult_right_mono) auto
  then show "2 ^ 23 * float_ulp x \<le> float_round x"
    using x by (simp add: float_round_def u_def)
  have "round_half_even (x / u) \<le> 2 ^ 24"
    using round_half_even_mono [OF t(2)] by (simp only: round_half_even_of_int)
  then have "(of_int (round_half_even (x / u)) :: real) \<le> of_int (2 ^ 24)"
    by (simp only: of_int_le_iff)
  then have "of_int (round_half_even (x / u)) \<le> (2 ^ 24 :: real)"
    by simp
  then have "of_int (round_half_even (x / u)) * u \<le> 2 ^ 24 * u"
    using u by (intro mult_right_mono) auto
  then show "float_round x \<le> 2 ^ 24 * float_ulp x"
    using x by (simp add: float_round_def u_def)
qed

lemma float_round_pos:
  assumes "0 < x"
  shows "0 < float_round x"
proof -
  have "0 < 2 ^ 23 * float_ulp x"
    by (simp add: float_ulp_pos)
  then show ?thesis
    using float_round_pos_range(1) [OF assms] by linarith
qed

lemma float_round_mono_pos:
  assumes "0 < x" and "x \<le> y"
  shows "float_round x \<le> float_round y"
proof -
  have y: "0 < y"
    using assms by simp
  have "log 2 \<bar>x\<bar> \<le> log 2 \<bar>y\<bar>"
    using assms by simp
  then have k: "\<lfloor>log 2 \<bar>x\<bar>\<rfloor> \<le> \<lfloor>log 2 \<bar>y\<bar>\<rfloor>"
    by (rule floor_mono)
  show ?thesis
  proof (cases "\<lfloor>log 2 \<bar>x\<bar>\<rfloor> = \<lfloor>log 2 \<bar>y\<bar>\<rfloor>")
    case True
    then have u: "float_ulp y = float_ulp x"
      by (simp add: float_ulp_def)
    have "x / float_ulp x \<le> y / float_ulp x"
      using assms(2) float_ulp_pos [of x] by (simp add: divide_right_mono)
    then have "round_half_even (x / float_ulp x) \<le> round_half_even (y / float_ulp x)"
      by (rule round_half_even_mono)
    then have "of_int (round_half_even (x / float_ulp x)) * float_ulp x
               \<le> of_int (round_half_even (y / float_ulp x)) * float_ulp x"
      using float_ulp_pos [of x] by (intro mult_right_mono) auto
    then show ?thesis
      using assms(1) y by (simp add: float_round_def u)
  next
    case False
    then have "of_int \<lfloor>log 2 \<bar>x\<bar>\<rfloor> + (1::real) \<le> of_int \<lfloor>log 2 \<bar>y\<bar>\<rfloor>"
      using k by linarith
    then have "(2::real) powr (of_int \<lfloor>log 2 \<bar>x\<bar>\<rfloor> + 1) \<le> 2 powr (of_int \<lfloor>log 2 \<bar>y\<bar>\<rfloor>)"
      by simp
    moreover have "2 ^ 24 * float_ulp x = 2 powr (of_int \<lfloor>log 2 \<bar>x\<bar>\<rfloor> + 1)"
      by (simp add: float_ulp_def powr_diff powr_add)
    moreover have "2 ^ 23 * float_ulp y = 2 powr (of_int \<lfloor>log 2 \<bar>y\<bar>\<rfloor>)"
      by (simp add: float_ulp_def powr_diff)
    ultimately have "2 ^ 24 * float_ulp x \<le> 2 ^ 23 * float_ulp y"
      by simp
    then show ?thesis
      using float_round_pos_range(2) [OF assms(1)] float_round_pos_range(1) [OF y]
      by linarith
  qed
qed

text \<open>Rounding is monotone.\<close>

lemma float_round_mono:
  assumes "x \<le> y"
  shows "float_round x \<le> float_round y"
proof -
  consider "0 < x" | "x = 0" | "x < 0" "y < 0" | "x < 0" "y = 0" | "x < 0" "0 < y"
    by linarith
  then show ?thesis
  proof cases
    case 1
    then show ?thesis
      using assms by (rule float_round_mono_pos)
  next
    case 2
    then show ?thesis
      using assms float_round_pos [of y] by (cases "y = 0") (auto simp: float_round_zero)
  next
    case 3
    then have "float_round (- y) \<le> float_round (- x)"
      using assms by (intro float_round_mono_pos) auto
    then show ?thesis
      by (simp add: float_round_minus)
  next
    case 4
    then show ?thesis
      using float_round_pos [of "- x"] by (simp add: float_round_minus float_round_zero)
  next
    case 5
    then show ?thesis
      using float_round_pos [of "- x"] float_round_pos [of y]
      by (simp add: float_round_minus)
  qed
qed

lemma float_round_range:
  assumes "float_round a = a" and "float_round b = b" and "a \<le> x" and "x \<le> b"
  shows "a \<le> float_round x \<and> float_round x \<le> b"
  using float_round_mono [OF assms(3)] float_round_mono [OF assms(4)] assms(1,2) by simp

text \<open>The floats that the evaluations below meet.\<close>

lemma float_round_half: "float_round (1/2) = 1/2"
  by (subst float_round_eval_down [where n = 24]) (simp_all add: round_half_even_def)

lemma float_round_quarter: "float_round (1/4) = 1/4"
  by (subst float_round_eval_down [where n = 25]) (simp_all add: round_half_even_def)

lemma float_round_three_quarters: "float_round (3/4) = 3/4"
  by (subst float_round_eval_down [where n = 24]) (simp_all add: round_half_even_def)

lemma float_round_1: "float_round 1 = 1"
  by (subst float_round_eval_down [where n = 23]) (simp_all add: round_half_even_def)

lemma float_round_minus_1: "float_round (- 1) = - 1"
  by (subst float_round_eval_down [where n = 23]) (simp_all add: round_half_even_def)

lemma float_round_minus_half: "float_round (- (1/2)) = - (1/2)"
  by (simp add: float_round_minus float_round_half)

lemma float_round_2: "float_round 2 = 2"
  by (subst float_round_eval_down [where n = 22]) (simp_all add: round_half_even_def)

lemma float_round_4: "float_round 4 = 4"
  by (subst float_round_eval_down [where n = 21]) (simp_all add: round_half_even_def)

lemma float_round_12: "float_round 12 = 12"
  by (subst float_round_eval_down [where n = 20]) (simp_all add: round_half_even_def)

lemma float_round_81: "float_round 81 = 81"
  by (subst float_round_eval_down [where n = 17]) (simp_all add: round_half_even_def)

lemma float_round_880: "float_round 880 = 880"
  by (subst float_round_eval_down [where n = 14]) (simp_all add: round_half_even_def)

lemmas float_round_literals =
  float_round_zero float_round_half float_round_quarter float_round_three_quarters
  float_round_1 float_round_minus_1 float_round_minus_half float_round_2 float_round_4
  float_round_12 float_round_81 float_round_880

text \<open>The logarithm of a rounded positive number.\<close>

lemma ln_2_ge_half: "1/2 \<le> ln (2::real)"
proof -
  have "ln (1/2 :: real) \<le> 1/2 - 1"
    by (rule ln_le_minus_one) simp
  moreover have "ln (1/2 :: real) = - ln 2"
    by (simp add: ln_div)
  ultimately show ?thesis
    by simp
qed

lemma log2_near_one:
  assumes "\<bar>r - 1\<bar> \<le> 1 / 2 ^ 24"
  shows "\<bar>log 2 r\<bar> \<le> 1 / 2 ^ 22"
proof -
  have a: "\<bar>r - 1\<bar> \<le> 1 / 2"
    using assms by simp
  have r: "1/2 \<le> r" "0 < r"
    using a by linarith+
  have b: "\<bar>ln r\<bar> \<le> 1 / 2 ^ 23"
  proof (cases "1 \<le> r")
    case True
    have "ln r \<le> r - 1"
      using r by (intro ln_le_minus_one)
    moreover have "0 \<le> ln r"
      using True by simp
    ultimately show ?thesis
      using assms by (simp add: abs_le_iff)
  next
    case False
    have "ln (1 / r) \<le> 1 / r - 1"
      using r by (intro ln_le_minus_one) simp
    moreover have "1 / r - 1 = (1 - r) / r"
      using r by (simp add: field_simps)
    moreover have "(1 - r) / r \<le> (1 - r) / (1/2)"
      using r False by (intro divide_left_mono) auto
    moreover have "ln (1 / r) = - ln r"
      using r by (simp add: ln_div)
    moreover have "ln r \<le> 0"
      using False r by simp
    ultimately show ?thesis
      using assms by (simp add: abs_le_iff)
  qed
  have "\<bar>log 2 r\<bar> = \<bar>ln r\<bar> / ln 2"
    by (simp add: log_def)
  also have "\<dots> \<le> \<bar>ln r\<bar> / (1/2)"
    using ln_2_ge_half by (intro divide_left_mono) auto
  also have "\<dots> = 2 * \<bar>ln r\<bar>"
    by simp
  also have "\<dots> \<le> 2 * (1 / 2 ^ 23)"
    using b by (intro mult_left_mono) auto
  finally show ?thesis
    by simp
qed

lemma float_round_log:
  assumes "0 < x"
  shows "\<bar>log 2 (float_round x) - log 2 x\<bar> \<le> 1 / 4194304"
proof -
  have p: "0 < float_round x"
    using assms by (rule float_round_pos)
  have "\<bar>float_round x - x\<bar> \<le> x / 2 ^ 24"
    using float_round_error [of x] assms by simp
  then have "\<bar>float_round x - x\<bar> / x \<le> 1 / 2 ^ 24"
    using assms by (simp add: field_simps)
  moreover have "float_round x / x - 1 = (float_round x - x) / x"
    using assms by (simp add: field_simps)
  then have "\<bar>float_round x / x - 1\<bar> = \<bar>float_round x - x\<bar> / x"
    using assms by (simp add: abs_divide)
  ultimately have "\<bar>log 2 (float_round x / x)\<bar> \<le> 1 / 2 ^ 22"
    by (intro log2_near_one) simp
  then show ?thesis
    using p assms by (simp add: log_divide)
qed

subsection \<open>Casts and the fractional part\<close>

lemma static_cast_int_of_int: "static_cast_int (of_int n) = n"
  by (simp add: static_cast_int_def)

lemma static_cast_int_unit: "0 \<le> x \<Longrightarrow> x < 1 \<Longrightarrow> static_cast_int x = 0"
  by (simp add: static_cast_int_def floor_eq_iff)

lemma fraction_unit: "0 \<le> x \<Longrightarrow> x < 1 \<Longrightarrow> fraction x = x"
  by (simp add: fraction_def static_cast_int_unit)

lemma fraction_nonneg: "0 \<le> x \<Longrightarrow> fraction x = frac x"
  by (simp add: fraction_def static_cast_int_def frac_def)

lemma fraction_negative: "x < 0 \<Longrightarrow> fraction x \<le> 0"
  by (simp add: fraction_def static_cast_int_def)

subsection \<open>Square wave\<close>

text \<open>
  C1, as the claim states it, fails at the midpoint: the fractional part of 0.5 is
  0.5, which lies in [0.5, 1), and \<open>squareSample\<close> is 1 there, since the comparison
  of the source is the strict \<open>fraction(x) > 0.5\<close>.
\<close>

theorem squareSample_midpoint_counterexample:
  "1/2 \<le> fraction (1/2) \<and> fraction (1/2) < 1 \<and> squareSample (1/2) = 1 \<and>
   squareSample (1/2) \<noteq> - 1"
  by (simp add: squareSample_def fraction_unit)

text \<open>
  C1, amended. For every \<open>x\<close> whose fractional part lies in [0, 0.5] (the midpoint
  included), \<open>squareSample x\<close> is exactly 1; for every \<open>x\<close> whose fractional part
  lies in (0.5, 1), it is exactly -1.
\<close>

theorem squareSample_exact:
  "(0 \<le> fraction x \<and> fraction x \<le> 1/2 \<longrightarrow> squareSample x = 1) \<and>
   (1/2 < fraction x \<and> fraction x < 1 \<longrightarrow> squareSample x = - 1)"
  by (simp add: squareSample_def)

theorem squareSample_exact_witness:
  "0 \<le> fraction (1/4) \<and> fraction (1/4) \<le> 1/2 \<and> squareSample (1/4) = 1 \<and>
   1/2 < fraction (3/4) \<and> fraction (3/4) < 1 \<and> squareSample (3/4) = - 1"
proof -
  have lo: "0 \<le> fraction (1/4) \<and> fraction (1/4) \<le> 1/2"
    by (simp add: fraction_unit)
  have hi: "1/2 < fraction (3/4) \<and> fraction (3/4) < 1"
    by (simp add: fraction_unit)
  show ?thesis
    using lo hi squareSample_exact [of "1/4"] squareSample_exact [of "3/4"] by simp
qed

subsection \<open>Triangle wave\<close>

text \<open>
  C5. \<open>triangleSample\<close> is exactly 0 at 0, exactly 1 at 0.25, exactly 0 at 0.5 and
  exactly -1 at 0.75: the breakpoints of the piecewise formula are exact.
\<close>

theorem triangleSample_breakpoints:
  "triangleSample 0 = 0 \<and> triangleSample 0.25 = 1 \<and>
   triangleSample 0.5 = 0 \<and> triangleSample 0.75 = - 1"
  by (simp add: triangleSample_def fraction_unit)

subsection \<open>Range of the closed-form routines\<close>

lemma expSample_lower_half:
  assumes "0 \<le> p" and "p \<le> 1/2"
  shows "expSample p = float_round (- 1 + float_round (float_round (8 * p) * p))"
  using assms by (simp add: expSample_def fraction_unit Let_def)

lemma expSample_upper_half:
  assumes "1/2 < p" and "p < 1"
  shows "expSample p =
         float_round (- 1 + float_round
           (float_round (8 * float_round (1 - p)) * float_round (1 - p)))"
  using assms by (simp add: expSample_def fraction_unit Let_def)

lemma expSample_one: "expSample 1 = - 1"
  by (simp add: expSample_def fraction_def static_cast_int_def float_round_literals)

lemma expSample_formula_range:
  assumes "0 \<le> q" and "q \<le> 1/2"
  shows "- 1 \<le> float_round (- 1 + float_round (float_round (8 * q) * q)) \<and>
         float_round (- 1 + float_round (float_round (8 * q) * q)) \<le> 1"
proof -
  have a: "0 \<le> float_round (8 * q) \<and> float_round (8 * q) \<le> 4"
    using assms by (intro float_round_range) (simp_all add: float_round_literals)
  then have "0 \<le> float_round (8 * q) * q"
    using assms by simp
  moreover have "float_round (8 * q) * q \<le> 4 * (1/2)"
    using a assms by (intro mult_mono) auto
  ultimately have
    "0 \<le> float_round (float_round (8 * q) * q) \<and> float_round (float_round (8 * q) * q) \<le> 2"
    by (intro float_round_range) (simp_all add: float_round_literals)
  then show ?thesis
    by (intro float_round_range) (simp_all add: float_round_literals)
qed

lemma expSample_range:
  assumes "0 \<le> p" and "p < 1"
  shows "- 1 \<le> expSample p \<and> expSample p \<le> 1"
proof (cases "p \<le> 1/2")
  case True
  show ?thesis
    unfolding expSample_lower_half [OF assms(1) True]
    using assms(1) True by (rule expSample_formula_range)
next
  case False
  then have p: "1/2 < p"
    by simp
  have "0 \<le> float_round (1 - p) \<and> float_round (1 - p) \<le> 1/2"
    using p assms by (intro float_round_range) (simp_all add: float_round_literals)
  then show ?thesis
    unfolding expSample_upper_half [OF p assms(2)]
    by (intro expSample_formula_range) simp_all
qed

lemma piecewise_range:
  assumes "0 \<le> p" and "p < 1"
  shows "- 1 \<le> triangleSample p \<and> triangleSample p \<le> 1"
    and "- 1 \<le> sawSample p \<and> sawSample p \<le> 1"
    and "- 1 \<le> squareSample p \<and> squareSample p \<le> 1"
    and "- 1 \<le> moogSawSample p \<and> moogSawSample p \<le> 1"
  using assms
  by (simp_all add: triangleSample_def sawSample_def squareSample_def
      moogSawSample_def fraction_unit Let_def)

lemma sinSample_range: "- 1 \<le> sinSample F p \<and> sinSample F p \<le> 1"
  by (simp add: sinSample_def sinf_def)

text \<open>
  C4. For every phase fraction \<open>p\<close> in [0, 1), each of the closed-form routines
  \<open>sinSample\<close>, \<open>triangleSample\<close>, \<open>sawSample\<close>, \<open>squareSample\<close>, \<open>moogSawSample\<close>
  and \<open>expSample\<close> returns a value in [-1, 1].
\<close>

theorem closed_form_samples_in_range:
  assumes "0 \<le> p" and "p < 1"
  shows "(- 1 \<le> sinSample F p \<and> sinSample F p \<le> 1) \<and>
         (- 1 \<le> triangleSample p \<and> triangleSample p \<le> 1) \<and>
         (- 1 \<le> sawSample p \<and> sawSample p \<le> 1) \<and>
         (- 1 \<le> squareSample p \<and> squareSample p \<le> 1) \<and>
         (- 1 \<le> moogSawSample p \<and> moogSawSample p \<le> 1) \<and>
         (- 1 \<le> expSample p \<and> expSample p \<le> 1)"
  using sinSample_range [of F p] piecewise_range [OF assms] expSample_range [OF assms]
  by blast

theorem closed_form_samples_in_range_witness:
  "(0::real) \<le> 3/8 \<and> (3/8::real) < 1 \<and>
   (- 1 \<le> sinSample (2 * pi) (3/8) \<and> sinSample (2 * pi) (3/8) \<le> 1) \<and>
   (- 1 \<le> triangleSample (3/8) \<and> triangleSample (3/8) \<le> 1) \<and>
   (- 1 \<le> sawSample (3/8) \<and> sawSample (3/8) \<le> 1) \<and>
   (- 1 \<le> squareSample (3/8) \<and> squareSample (3/8) \<le> 1) \<and>
   (- 1 \<le> moogSawSample (3/8) \<and> moogSawSample (3/8) \<le> 1) \<and>
   (- 1 \<le> expSample (3/8) \<and> expSample (3/8) \<le> 1)"
proof -
  have lo: "(0::real) \<le> 3/8" and hi: "(3/8::real) < 1"
    by simp_all
  show ?thesis
    using lo hi closed_form_samples_in_range [OF lo hi, of "2 * pi"] by simp
qed

subsection \<open>Exponential wave\<close>

text \<open>
  The float nearest to 0.1 is \<open>13421773 / 2 ^ 27\<close>. Its complement is not a float:
  \<open>1.0f - 0.1f\<close> is rounded to \<open>7549747 / 2 ^ 23\<close>, and reflecting that back gives
  \<open>838861 / 2 ^ 23\<close>, which is not the float the caller started from.
\<close>

lemma float_round_tenth: "float_round (13421773 / 134217728) = 13421773 / 134217728"
  by (subst float_round_eval_down [where n = 27]) (simp_all add: round_half_even_def)

lemma float_round_tenth_complement:
  "float_round (1 - 13421773 / 134217728) = 7549747 / 8388608"
  by (subst float_round_eval_down [where n = 24]) (simp_all add: round_half_even_def)

lemma expSample_tenth: "expSample (13421773 / 134217728) = - (15435039 / 16777216)"
proof -
  define a :: real where "a = 13421773 / 134217728"
  have e: "expSample a = float_round (- 1 + float_round (float_round (8 * a) * a))"
    by (rule expSample_lower_half) (simp_all add: a_def)
  have 1: "float_round (8 * a) = 13421773 / 16777216"
    unfolding a_def
    by (subst float_round_eval_down [where n = 24]) (simp_all add: round_half_even_def)
  have 2: "float_round (13421773 / 16777216 * a) = 10737419 / 134217728"
    unfolding a_def
    by (subst float_round_eval_down [where n = 27]) (simp_all add: round_half_even_def)
  have 3: "float_round (- 1 + 10737419 / 134217728) = - (15435039 / 16777216)"
    by (subst float_round_eval_down [where n = 24]) (simp_all add: round_half_even_def)
  have "expSample a = - (15435039 / 16777216)"
    unfolding e 1 2 3 ..
  then show ?thesis
    unfolding a_def .
qed

lemma expSample_tenth_complement: "expSample (7549747 / 8388608) = - (7717519 / 8388608)"
proof -
  define b :: real where "b = 7549747 / 8388608"
  have e: "expSample b =
           float_round (- 1 + float_round
             (float_round (8 * float_round (1 - b)) * float_round (1 - b)))"
    by (rule expSample_upper_half) (simp_all add: b_def)
  have 0: "float_round (1 - b) = 838861 / 8388608"
    unfolding b_def
    by (subst float_round_eval_down [where n = 27]) (simp_all add: round_half_even_def)
  have 1: "float_round (8 * (838861 / 8388608)) = 838861 / 1048576"
    by (subst float_round_eval_down [where n = 24]) (simp_all add: round_half_even_def)
  have 2: "float_round (838861 / 1048576 * (838861 / 8388608)) = 10737423 / 134217728"
    by (subst float_round_eval_down [where n = 27]) (simp_all add: round_half_even_def)
  have 3: "float_round (- 1 + 10737423 / 134217728) = - (7717519 / 8388608)"
    by (subst float_round_eval_down [where n = 24]) (simp_all add: round_half_even_def)
  have "expSample b = - (7717519 / 8388608)"
    unfolding e 0 1 2 3 ..
  then show ?thesis
    unfolding b_def .
qed

text \<open>
  C10, as the claim states it, fails in float arithmetic. At the float \<open>p\<close> nearest
  to 0.1, which lies in [0, 1], the program can pass to \<open>expSample\<close> only the
  rounded complement \<open>1.0f - p\<close>, since \<open>1 - p\<close> is not a float; and
  \<open>expSample p\<close> is -0.92000002 (\<open>-15435039 / 2 ^ 24\<close>) while \<open>expSample (1.0f - p)\<close>
  is -0.91999996 (\<open>-7717519 / 2 ^ 23\<close>).
\<close>

theorem expSample_symmetry_counterexample:
  "float_round (13421773 / 134217728) = 13421773 / 134217728 \<and>
   (0::real) \<le> 13421773 / 134217728 \<and> (13421773 / 134217728 :: real) \<le> 1 \<and>
   float_round (1 - 13421773 / 134217728) \<noteq> 1 - 13421773 / 134217728 \<and>
   expSample (13421773 / 134217728) = - (15435039 / 16777216) \<and>
   expSample (float_round (1 - 13421773 / 134217728)) = - (7717519 / 8388608) \<and>
   expSample (13421773 / 134217728)
     \<noteq> expSample (float_round (1 - 13421773 / 134217728))"
  unfolding float_round_tenth_complement expSample_tenth expSample_tenth_complement
    float_round_tenth
  by simp

text \<open>
  C10, amended. For every float \<open>p\<close> in [0, 1] whose complement \<open>1 - p\<close> is a float
  too, so that \<open>1.0f - p\<close> is computed without rounding, \<open>expSample p\<close> equals
  \<open>expSample (1 - p)\<close>: both are \<open>-1 + 8 * q * q\<close>, evaluated in float arithmetic at
  the reflected phase \<open>q\<close>, the smaller of \<open>p\<close> and \<open>1 - p\<close>.
\<close>

theorem expSample_symmetric:
  assumes "0 \<le> p" and "p \<le> 1"
    and "float_round p = p" and "float_round (1 - p) = 1 - p"
  shows "expSample p = expSample (1 - p) \<and>
         expSample p =
           float_round (- 1 + float_round
             (float_round (8 * min p (1 - p)) * min p (1 - p)))"
proof -
  let ?f = "\<lambda>q. float_round (- 1 + float_round (float_round (8 * q) * q))"
  consider "p = 0" | "p = 1" | "0 < p" "p < 1/2" | "p = 1/2" | "1/2 < p" "p < 1"
    using assms(1,2) by linarith
  then show ?thesis
  proof cases
    case 1
    then show ?thesis
      by (simp add: expSample_one expSample_lower_half float_round_literals)
  next
    case 2
    then show ?thesis
      by (simp add: expSample_one expSample_lower_half float_round_literals)
  next
    case 3
    then have "expSample (1 - p) =
               ?f (float_round (1 - (1 - p)))"
      by (intro expSample_upper_half) simp_all
    then have "expSample (1 - p) = ?f p"
      by (simp add: assms(3))
    moreover have "expSample p = ?f p"
      using 3 by (intro expSample_lower_half) simp_all
    moreover have "min p (1 - p) = p"
      using 3 by simp
    ultimately show ?thesis
      by simp
  next
    case 4
    have "expSample p = ?f p"
      using 4 by (intro expSample_lower_half) simp_all
    moreover have "1 - p = p" and "min p (1 - p) = p"
      using 4 by simp_all
    ultimately show ?thesis
      by (simp only: simp_thms)
  next
    case 5
    then have "expSample (1 - p) = ?f (1 - p)"
      by (intro expSample_lower_half) simp_all
    moreover have "expSample p = ?f (float_round (1 - p))"
      using 5 by (intro expSample_upper_half) simp_all
    moreover have "min p (1 - p) = 1 - p"
      using 5 by simp
    ultimately show ?thesis
      by (simp add: assms(4))
  qed
qed

theorem expSample_symmetric_witness:
  "(0::real) \<le> 1/4 \<and> (1/4::real) \<le> 1 \<and>
   float_round (1/4) = 1/4 \<and> float_round (1 - 1/4) = 1 - 1/4 \<and>
   expSample (1/4) = expSample (1 - 1/4) \<and> expSample (1/4) = - 1/2"
proof -
  have lo: "(0::real) \<le> 1/4" and hi: "(1/4::real) \<le> 1"
    by simp_all
  have f: "float_round (1/4) = 1/4"
    by (rule float_round_quarter)
  have g: "float_round (1 - 1/4) = 1 - 1/4"
    using float_round_three_quarters by simp
  have v: "expSample (1/4) = - 1/2"
    using expSample_lower_half [of "1/4"] by (simp add: float_round_literals)
  show ?thesis
    using lo hi f g v expSample_symmetric [OF lo hi f g] by simp
qed

subsection \<open>Sine wave\<close>

lemma sin_lipschitz: "\<bar>sin a - sin b\<bar> \<le> \<bar>a - b\<bar>" for a b :: real
proof -
  have "\<bar>sin a - sin b\<bar> = 2 * \<bar>sin ((a - b) / 2)\<bar> * \<bar>cos ((a + b) / 2)\<bar>"
    by (simp add: sin_diff_sin abs_mult)
  also have "\<dots> \<le> 2 * \<bar>(a - b) / 2\<bar> * 1"
    by (intro mult_mono mult_left_mono abs_sin_x_le_abs_x) auto
  finally show ?thesis
    by simp
qed

lemma sinSample_error: "\<bar>sinSample F p - sin (2 * pi * p)\<bar> \<le> \<bar>F - 2 * pi\<bar> * \<bar>p\<bar>"
proof -
  have "\<bar>sin (p * F) - sin (2 * pi * p)\<bar> \<le> \<bar>p * F - 2 * pi * p\<bar>"
    by (rule sin_lipschitz)
  also have "p * F - 2 * pi * p = (F - 2 * pi) * p"
    by (simp add: algebra_simps)
  finally show ?thesis
    by (simp add: sinSample_def sinf_def abs_mult)
qed

text \<open>
  C6. \<open>sinSample\<close> at 0 is exactly 0, whatever the constant \<open>F_2PI\<close>. At 0.25, 0.5
  and 0.75 it is 1, 0 and -1 up to a tolerance that the error of the constant
  gives: at every \<open>p\<close> the routine differs from \<open>sin (2 * pi * p)\<close> by at most
  \<open>\<bar>F_2PI - 2 * pi\<bar> * \<bar>p\<bar>\<close>, and with the exact constant it is \<open>sin (2 * pi * p)\<close>.
\<close>

theorem sinSample_reference_values:
  "sinSample F 0 = 0 \<and>
   \<bar>sinSample F (1/4) - 1\<bar> \<le> \<bar>F - 2 * pi\<bar> * (1/4) \<and>
   \<bar>sinSample F (1/2) - 0\<bar> \<le> \<bar>F - 2 * pi\<bar> * (1/2) \<and>
   \<bar>sinSample F (3/4) - (- 1)\<bar> \<le> \<bar>F - 2 * pi\<bar> * (3/4) \<and>
   \<bar>sinSample F p - sin (2 * pi * p)\<bar> \<le> \<bar>F - 2 * pi\<bar> * \<bar>p\<bar> \<and>
   sinSample (2 * pi) p = sin (2 * pi * p)"
proof -
  have ref: "sin (2 * pi * (1/4)) = 1" "sin (2 * pi * (1/2)) = 0"
    "sin (2 * pi * (3/4)) = - 1"
    using sin_3over2_pi by (simp_all add: field_simps)
  have "sinSample F 0 = 0"
    by (simp add: sinSample_def sinf_def)
  moreover have "\<bar>sinSample F (1/4) - 1\<bar> \<le> \<bar>F - 2 * pi\<bar> * (1/4)"
    using sinSample_error [of F "1/4"] unfolding ref by simp
  moreover have "\<bar>sinSample F (1/2) - 0\<bar> \<le> \<bar>F - 2 * pi\<bar> * (1/2)"
    using sinSample_error [of F "1/2"] unfolding ref by simp
  moreover have "\<bar>sinSample F (3/4) - (- 1)\<bar> \<le> \<bar>F - 2 * pi\<bar> * (3/4)"
    using sinSample_error [of F "3/4"] unfolding ref by simp
  moreover have "sinSample (2 * pi) p = sin (2 * pi * p)"
    by (simp add: sinSample_def sinf_def mult.commute)
  ultimately show ?thesis
    using sinSample_error [of F p] by blast
qed

subsection \<open>Band selection\<close>

lemma sdiv_pos_mono:
  assumes "0 < (d::int)" and "a \<le> b"
  shows "a sdiv d \<le> b sdiv d"
proof -
  have sd: "x sdiv d = (if 0 \<le> x then x div d else - ((- x) div d))" for x
    using assms(1) by (auto simp: signed_divide_int_def sgn_if)
  show ?thesis
  proof (cases "0 \<le> a")
    case True
    with assms show ?thesis
      by (simp add: sd zdiv_mono1)
  next
    case a: False
    show ?thesis
    proof (cases "0 \<le> b")
      case True
      have "0 \<le> (- a) div d"
        using a assms(1) by (simp add: pos_imp_zdiv_nonneg_iff)
      moreover have "0 \<le> b div d"
        using True assms(1) by (simp add: pos_imp_zdiv_nonneg_iff)
      ultimately show ?thesis
        using a True by (simp add: sd)
    next
      case False
      have "(- b) div d \<le> (- a) div d"
        using assms by (intro zdiv_mono1) auto
      then show ?thesis
        using a False by (simp add: sd)
    qed
  qed
qed

lemma sdiv_step:
  assumes "0 < (S::int)" and "1 \<le> b" and "e = 0 \<or> e = 1"
  shows "b \<le> (b * S + e) sdiv S \<and> (b * S + e) sdiv S \<le> b + 1"
proof -
  have pos: "0 < b * S + e"
    using assms by auto
  then have sd: "(b * S + e) sdiv S = (b * S + e) div S"
    using assms(1) by (simp add: signed_divide_int_def sgn_if)
  have "(b * S + e) div S = b + e div S"
    using assms(1) by simp
  moreover have "0 \<le> e div S"
    using assms(1,3) by (auto simp: pos_imp_zdiv_nonneg_iff)
  moreover have "e div S \<le> 1"
  proof (cases "S = 1")
    case True
    then show ?thesis
      using assms(3) by auto
  next
    case False
    then have "e < S"
      using assms(1,3) by auto
    then have "e div S = 0"
      using assms(3) by (auto simp: div_pos_pos_trivial)
    then show ?thesis
      by simp
  qed
  ultimately show ?thesis
    using sd by simp
qed

lemma band_range:
  assumes "2 \<le> WAVE_TABLES_PER_WAVEFORM_COUNT K"
  shows "1 \<le> waveTableBandFromFreq K c freq"
    and "waveTableBandFromFreq K c freq \<le> WAVE_TABLES_PER_WAVEFORM_COUNT K - 1"
  using assms by (simp_all add: waveTableBandFromFreq_def Let_def)

text \<open>At a positive frequency the logarithm has a value and no cast is undefined.\<close>

lemma band_of_positive_frequency:
  assumes "0 < freq"
  shows "waveTableBandFromFreq K c freq =
     (let band = (69 + static_cast_int (ceil (float_round
                    (12 * float_round (log 2 (float_round (freq / 440)))))))
                   sdiv SEMITONES_PER_TABLE K
      in if band \<le> 1 then 1
         else if band \<ge> WAVE_TABLES_PER_WAVEFORM_COUNT K - 1
              then WAVE_TABLES_PER_WAVEFORM_COUNT K - 1
              else band)"
proof -
  have "0 < float_round (freq / 440)"
    using assms by (intro float_round_pos) simp
  then show ?thesis
    by (simp add: waveTableBandFromFreq_def log2f_def)
qed

lemma semitones_mono:
  assumes "0 < f1" and "f1 \<le> f2"
  shows "static_cast_int (ceil (float_round
           (12 * float_round (log 2 (float_round (f1 / 440))))))
         \<le> static_cast_int (ceil (float_round
           (12 * float_round (log 2 (float_round (f2 / 440))))))"
proof -
  have q1: "0 < float_round (f1 / 440)"
    using assms by (intro float_round_pos) simp
  have "float_round (f1 / 440) \<le> float_round (f2 / 440)"
    using assms by (intro float_round_mono) (simp add: divide_right_mono)
  then have "log 2 (float_round (f1 / 440)) \<le> log 2 (float_round (f2 / 440))"
    using q1 by (intro log_mono) auto
  then have "float_round (log 2 (float_round (f1 / 440)))
             \<le> float_round (log 2 (float_round (f2 / 440)))"
    by (rule float_round_mono)
  then have "float_round (12 * float_round (log 2 (float_round (f1 / 440))))
             \<le> float_round (12 * float_round (log 2 (float_round (f2 / 440))))"
    by (intro float_round_mono) simp
  then have "\<lceil>float_round (12 * float_round (log 2 (float_round (f1 / 440))))\<rceil>
             \<le> \<lceil>float_round (12 * float_round (log 2 (float_round (f2 / 440))))\<rceil>"
    by (rule ceiling_mono)
  then show ?thesis
    by (simp add: ceil_def static_cast_int_of_int)
qed

lemma example_bands:
  "waveTableBandFromFreq example_constants c 440 = 69"
  "waveTableBandFromFreq example_constants c 880 = 81"
  by (simp_all add: waveTableBandFromFreq_def log2f_def ceil_def static_cast_int_def Let_def
      example_constants_def float_round_literals)

text \<open>
  At frequency 0 the logarithm is minus infinity and the band depends on what the
  undefined cast gives: with the least 32-bit integer it is the lowest band, with
  0 it is band 69.
\<close>

lemma example_band_at_zero:
  "waveTableBandFromFreq example_constants example_cast 0 = 1"
  "waveTableBandFromFreq example_constants 0 0 = 69"
  by (simp_all add: waveTableBandFromFreq_def log2f_def Let_def example_defs
      float_round_literals)

text \<open>
  C3. For every positive frequency, however small or large,
  \<open>waveTableBandFromFreq\<close> returns a band index in [1, bandCount - 1], where
  bandCount = WAVE_TABLES_PER_WAVEFORM_COUNT is at least 2: never 0 or a negative
  index, never an index above bandCount - 1.
\<close>

theorem waveTableBandFromFreq_clamped:
  assumes "2 \<le> WAVE_TABLES_PER_WAVEFORM_COUNT K" and "0 < freq"
  shows "1 \<le> waveTableBandFromFreq K c freq \<and>
         waveTableBandFromFreq K c freq \<le> WAVE_TABLES_PER_WAVEFORM_COUNT K - 1"
  using band_range [OF assms(1), of c freq] by simp

theorem waveTableBandFromFreq_clamped_witness:
  "2 \<le> WAVE_TABLES_PER_WAVEFORM_COUNT example_constants \<and> (0::real) < 1 / 1000000 \<and>
   1 \<le> waveTableBandFromFreq example_constants example_cast (1 / 1000000) \<and>
   waveTableBandFromFreq example_constants example_cast (1 / 1000000)
     \<le> WAVE_TABLES_PER_WAVEFORM_COUNT example_constants - 1"
proof -
  have c: "2 \<le> WAVE_TABLES_PER_WAVEFORM_COUNT example_constants"
    by (simp add: example_defs)
  have f: "(0::real) < 1 / 1000000"
    by simp
  show ?thesis
    using c f waveTableBandFromFreq_clamped [OF c f, of example_cast] by simp
qed

text \<open>
  C9. \<open>waveTableBandFromFreq\<close> is monotone on positive frequencies: for
  \<open>0 < f1 \<le> f2\<close> the band of \<open>f1\<close> is at most the band of \<open>f2\<close> (with a positive
  SEMITONES_PER_TABLE and at least two bands).
\<close>

theorem waveTableBandFromFreq_mono:
  assumes "0 < SEMITONES_PER_TABLE K" and "2 \<le> WAVE_TABLES_PER_WAVEFORM_COUNT K"
    and "0 < f1" and "f1 \<le> f2"
  shows "waveTableBandFromFreq K c f1 \<le> waveTableBandFromFreq K c f2"
proof -
  define b1 where
    "b1 = (69 + static_cast_int (ceil (float_round
             (12 * float_round (log 2 (float_round (f1 / 440)))))))
          sdiv SEMITONES_PER_TABLE K"
  define b2 where
    "b2 = (69 + static_cast_int (ceil (float_round
             (12 * float_round (log 2 (float_round (f2 / 440)))))))
          sdiv SEMITONES_PER_TABLE K"
  have f2: "0 < f2"
    using assms(3,4) by simp
  have "b1 \<le> b2"
    unfolding b1_def b2_def
    using semitones_mono [OF assms(3,4)] assms(1) by (intro sdiv_pos_mono) auto
  then show ?thesis
    using assms(2)
    by (simp add: band_of_positive_frequency [OF assms(3)] band_of_positive_frequency [OF f2]
        Let_def b1_def [symmetric] b2_def [symmetric])
qed

theorem waveTableBandFromFreq_mono_witness:
  "0 < SEMITONES_PER_TABLE example_constants \<and>
   2 \<le> WAVE_TABLES_PER_WAVEFORM_COUNT example_constants \<and>
   (0::real) < 440 \<and> (440::real) \<le> 880 \<and>
   waveTableBandFromFreq example_constants example_cast 440
     \<le> waveTableBandFromFreq example_constants example_cast 880 \<and>
   waveTableBandFromFreq example_constants example_cast 440 = 69 \<and>
   waveTableBandFromFreq example_constants example_cast 880 = 81"
proof -
  have s: "0 < SEMITONES_PER_TABLE example_constants"
    and c: "2 \<le> WAVE_TABLES_PER_WAVEFORM_COUNT example_constants"
    by (simp_all add: example_defs)
  have lo: "(0::real) < 440" and le: "(440::real) \<le> 880"
    by simp_all
  show ?thesis
    using s c lo le waveTableBandFromFreq_mono [OF s c lo le, of example_cast]
      example_bands [of example_cast]
    by simp
qed

text \<open>
  The round trip in float arithmetic. With \<open>k = band * SEMITONES_PER_TABLE\<close> at
  most 1024, each of the eight roundings on the way from the band to the semitone
  count, those of \<open>powf\<close> and \<open>log2f\<close> among them, moves the result by a relative
  \<open>2 ^ -24\<close> at most, and the count before the ceiling ends within 1/100 of the
  integer \<open>k - 69\<close>.
\<close>

lemma semitones_of_band_frequency:
  assumes "1 \<le> k" and "k \<le> 1024" and "k = band * SEMITONES_PER_TABLE K"
  shows "\<exists>l. log2f (float_round (freqFromWaveTableBand K band / 440)) = Some l \<and>
             \<bar>float_round (12 * l) - of_int (k - 69)\<bar> \<le> 1 / 100"
proof -
  define a0 where "a0 = float_round (of_int k)"
  define a1 where "a1 = float_round (a0 - 69)"
  define y where "y = float_round (a1 / 12)"
  define p where "p = float_round (2 powr y)"
  define f where "f = float_round (440 * p)"
  define q where "q = float_round (f / 440)"
  define l where "l = float_round (log 2 q)"
  define v where "v = float_round (12 * l)"
  define n where "n = real_of_int (k - 69)"
  have kr: "1 \<le> real_of_int k" "real_of_int k \<le> 1024"
    using assms(1,2) by simp_all
  have n: "n = real_of_int k - 69"
    by (simp add: n_def)
  have s0: "\<bar>a0 - of_int k\<bar> \<le> 1024 / 16777216"
    unfolding a0_def using kr by (intro float_round_abs_error) simp
  have "\<bar>a0 - 69\<bar> \<le> 1024"
    using s0 kr by linarith
  then have "\<bar>a1 - (a0 - 69)\<bar> \<le> 1024 / 16777216"
    unfolding a1_def by (rule float_round_abs_error)
  then have s1: "\<bar>a1 - n\<bar> \<le> 2048 / 16777216"
    using s0 unfolding n by linarith
  have "\<bar>a1\<bar> \<le> 1024"
    using s1 kr unfolding n by linarith
  then have "\<bar>a1 / 12\<bar> \<le> 128"
    by linarith
  then have s2': "\<bar>y - a1 / 12\<bar> \<le> 128 / 16777216"
    unfolding y_def by (rule float_round_abs_error)
  have s2: "\<bar>12 * y - n\<bar> \<le> 4096 / 16777216"
    using s1 s2' by linarith
  have yb: "\<bar>y\<bar> \<le> 128"
    using s2 kr unfolding n by linarith
  have p: "0 < p"
    unfolding p_def by (intro float_round_pos) simp
  have s3: "\<bar>log 2 p - y\<bar> \<le> 1 / 4194304"
    using float_round_log [of "2 powr y"] by (simp add: p_def)
  have f: "0 < f"
    unfolding f_def using p by (intro float_round_pos) simp
  have s4: "\<bar>log 2 f - (log 2 440 + log 2 p)\<bar> \<le> 1 / 4194304"
    using float_round_log [of "440 * p"] p by (simp add: f_def log_mult)
  have q: "0 < q"
    unfolding q_def using f by (intro float_round_pos) simp
  have s5: "\<bar>log 2 q - (log 2 f - log 2 440)\<bar> \<le> 1 / 4194304"
    using float_round_log [of "f / 440"] f by (simp add: q_def log_divide)
  have s345: "\<bar>log 2 q - y\<bar> \<le> 3 / 4194304"
    using s3 s4 s5 by linarith
  have "\<bar>log 2 q\<bar> \<le> 256"
    using s345 yb by linarith
  then have s6: "\<bar>l - log 2 q\<bar> \<le> 256 / 16777216"
    unfolding l_def by (rule float_round_abs_error)
  have "\<bar>12 * l\<bar> \<le> 4096"
    using s6 s345 yb by linarith
  then have s7: "\<bar>v - 12 * l\<bar> \<le> 4096 / 16777216"
    unfolding v_def by (rule float_round_abs_error)
  have "\<bar>v - n\<bar> \<le> 1 / 100"
    using s7 s6 s345 s2 by linarith
  moreover have "freqFromWaveTableBand K band = f"
    by (simp add: freqFromWaveTableBand_def powf_def f_def p_def y_def a1_def a0_def assms(3))
  moreover have "log2f q = Some l"
    using q by (simp add: log2f_def l_def)
  ultimately show ?thesis
    by (auto simp: q_def v_def n_def)
qed

text \<open>
  Hence the ceiling is the exact semitone count or one more, and the band of the
  frequency of band \<open>b\<close> is \<open>b\<close> or \<open>b + 1\<close>.
\<close>

lemma band_roundtrip_same_or_next:
  assumes "0 < SEMITONES_PER_TABLE K" and "1 \<le> b"
    and "b \<le> WAVE_TABLES_PER_WAVEFORM_COUNT K - 1"
    and "WAVE_TABLES_PER_WAVEFORM_COUNT K * SEMITONES_PER_TABLE K \<le> 1024"
  shows "waveTableBandFromFreq K c (freqFromWaveTableBand K b) = b \<or>
         waveTableBandFromFreq K c (freqFromWaveTableBand K b) = b + 1"
proof -
  define S where "S = SEMITONES_PER_TABLE K"
  define k where "k = b * S"
  have "b * S \<le> WAVE_TABLES_PER_WAVEFORM_COUNT K * S"
    using assms(1,3) by (intro mult_right_mono) (auto simp: S_def)
  then have k2: "k \<le> 1024"
    using assms(4) by (simp add: k_def S_def)
  have "1 * 1 \<le> b * S"
    using assms(1,2) by (intro mult_mono) (auto simp: S_def)
  then have k: "1 \<le> k" "k \<le> 1024"
    using k2 by (simp_all add: k_def)
  obtain l where l: "log2f (float_round (freqFromWaveTableBand K b / 440)) = Some l"
    and v: "\<bar>float_round (12 * l) - of_int (k - 69)\<bar> \<le> 1 / 100"
    using semitones_of_band_frequency [OF k, of b K] by (auto simp: k_def S_def)
  define e where "e = \<lceil>float_round (12 * l)\<rceil> - (k - 69)"
  have "of_int (k - 69) - 1 < float_round (12 * l)"
    and "float_round (12 * l) \<le> of_int (k - 69 + 1)"
    using v by linarith+
  then have "k - 69 \<le> \<lceil>float_round (12 * l)\<rceil>" and "\<lceil>float_round (12 * l)\<rceil> \<le> k - 69 + 1"
    by (simp_all add: le_ceiling_iff ceiling_le_iff del: of_int_add of_int_diff)
  then have e: "e = 0 \<or> e = 1"
    by (auto simp: e_def)
  have sem: "69 + static_cast_int (ceil (float_round (12 * l))) = b * S + e"
    by (simp add: ceil_def static_cast_int_of_int e_def k_def)
  have r: "b \<le> (b * S + e) sdiv S" "(b * S + e) sdiv S \<le> b + 1"
    using sdiv_step [OF _ assms(2) e, of S] assms(1) by (simp_all add: S_def)
  show ?thesis
    using r assms(2,3)
    by (auto simp: waveTableBandFromFreq_def l Let_def sem S_def [symmetric])
qed

lemma example_band_frequency: "freqFromWaveTableBand example_constants 81 = 880"
  by (simp add: freqFromWaveTableBand_def powf_def example_constants_def
      float_round_literals)

text \<open>
  C2. For every band index \<open>b\<close> in [1, bandCount - 1], the band of the frequency
  of band \<open>b\<close>, \<open>waveTableBandFromFreq (freqFromWaveTableBand b)\<close>, computed in
  float arithmetic, differs from \<open>b\<close> by at most one. The product
  bandCount * SEMITONES_PER_TABLE is at most 1024, which keeps the frequency of
  every band far below the largest float.
\<close>

theorem band_roundtrip_within_one:
  assumes "0 < SEMITONES_PER_TABLE K" and "1 \<le> b"
    and "b \<le> WAVE_TABLES_PER_WAVEFORM_COUNT K - 1"
    and "WAVE_TABLES_PER_WAVEFORM_COUNT K * SEMITONES_PER_TABLE K \<le> 1024"
  shows "\<bar>waveTableBandFromFreq K c (freqFromWaveTableBand K b) - b\<bar> \<le> 1"
  using band_roundtrip_same_or_next [OF assms, of c] by auto

theorem band_roundtrip_within_one_witness:
  "0 < SEMITONES_PER_TABLE example_constants \<and> (1::int) \<le> 81 \<and>
   81 \<le> WAVE_TABLES_PER_WAVEFORM_COUNT example_constants - 1 \<and>
   WAVE_TABLES_PER_WAVEFORM_COUNT example_constants * SEMITONES_PER_TABLE example_constants
     \<le> 1024 \<and>
   freqFromWaveTableBand example_constants 81 = 880 \<and>
   \<bar>waveTableBandFromFreq example_constants example_cast
       (freqFromWaveTableBand example_constants 81) - 81\<bar> \<le> 1"
proof -
  have s: "0 < SEMITONES_PER_TABLE example_constants"
    and lo: "(1::int) \<le> 81"
    and hi: "81 \<le> WAVE_TABLES_PER_WAVEFORM_COUNT example_constants - 1"
    and r: "WAVE_TABLES_PER_WAVEFORM_COUNT example_constants
            * SEMITONES_PER_TABLE example_constants \<le> 1024"
    by (simp_all add: example_defs)
  show ?thesis
    using s lo hi r example_band_frequency
      band_roundtrip_within_one [OF s lo hi r, of example_cast]
    by simp
qed

subsection \<open>Wavetable lookup\<close>

lemma smod_nonneg: "0 \<le> (n::int) \<Longrightarrow> 0 < l \<Longrightarrow> n smod l = n mod l"
  by (cases "n = 0") (simp_all add: signed_modulo_int_def sgn_if)

lemma wrapped_index_range:
  assumes "0 < (l::int)"
  shows "0 \<le> (if c smod l < 0 then c smod l + l else c smod l)"
    and "(if c smod l < 0 then c smod l + l else c smod l) < l"
  using assms smod_int_range [of l c] by auto

lemma f1_range:
  assumes "0 < WAVETABLE_LENGTH K"
  shows "0 \<le> wtSample_f1 K s \<and> wtSample_f1 K s < WAVETABLE_LENGTH K"
  using wrapped_index_range [OF assms, of "static_cast_int (wtSample_frame K s)"]
  by (simp add: wtSample_f1_def Let_def)

lemma f2_range:
  assumes "0 < WAVETABLE_LENGTH K"
  shows "0 \<le> wtSample_f2 K s \<and> wtSample_f2 K s < WAVETABLE_LENGTH K"
  using f1_range [OF assms, of s] by (simp add: wtSample_f2_def Let_def)

lemma f2_wrap:
  assumes "0 < WAVETABLE_LENGTH K"
  shows "wtSample_f2 K p =
         (if wtSample_f1 K p = WAVETABLE_LENGTH K - 1 then 0 else wtSample_f1 K p + 1)"
  using f1_range [OF assms, of p] by (auto simp: wtSample_f2_def Let_def)

lemma f2_mod:
  assumes "0 < WAVETABLE_LENGTH K"
  shows "wtSample_f2 K p = (wtSample_f1 K p + 1) mod WAVETABLE_LENGTH K"
proof (cases "wtSample_f1 K p = WAVETABLE_LENGTH K - 1")
  case True
  then show ?thesis
    by (simp add: f2_wrap [OF assms])
next
  case False
  then have "wtSample_f1 K p + 1 < WAVETABLE_LENGTH K" and "0 \<le> wtSample_f1 K p + 1"
    using f1_range [OF assms, of p] by auto
  then show ?thesis
    using False by (simp add: f2_wrap [OF assms])
qed

lemma f1_nonneg_phase:
  assumes "0 < WAVETABLE_LENGTH K" and "0 \<le> p"
  shows "wtSample_f1 K p = \<lfloor>p * of_int (WAVETABLE_LENGTH K)\<rfloor> mod WAVETABLE_LENGTH K"
proof -
  have "0 \<le> p * of_int (WAVETABLE_LENGTH K)"
    using assms by simp
  then have c: "static_cast_int (wtSample_frame K p) = \<lfloor>p * of_int (WAVETABLE_LENGTH K)\<rfloor>"
    and "0 \<le> \<lfloor>p * of_int (WAVETABLE_LENGTH K)\<rfloor>"
    by (simp_all add: static_cast_int_def wtSample_frame_def)
  then have "\<lfloor>p * of_int (WAVETABLE_LENGTH K)\<rfloor> smod WAVETABLE_LENGTH K
             = \<lfloor>p * of_int (WAVETABLE_LENGTH K)\<rfloor> mod WAVETABLE_LENGTH K"
    using assms(1) by (intro smod_nonneg)
  moreover have "0 \<le> \<lfloor>p * of_int (WAVETABLE_LENGTH K)\<rfloor> mod WAVETABLE_LENGTH K"
    using assms(1) by simp
  ultimately show ?thesis
    by (simp add: wtSample_f1_def c Let_def)
qed

lemma table_at_ok:
  assumes "table_ok K table" and "0 \<le> band" and "band < WAVE_TABLES_PER_WAVEFORM_COUNT K"
    and "0 \<le> i" and "i < WAVETABLE_LENGTH K"
  shows "table_at table band i = Some (table ! nat band ! nat i)"
proof -
  have len: "int (length table) = WAVE_TABLES_PER_WAVEFORM_COUNT K"
    and rows: "\<forall>row \<in> set table. int (length row) = WAVETABLE_LENGTH K"
    using assms(1) by (simp_all add: table_ok_def list_all_iff)
  have "nat band < length table"
    using assms(2,3) len by linarith
  then have "table ! nat band \<in> set table"
    by simp
  then have "int (length (table ! nat band)) = WAVETABLE_LENGTH K"
    using rows by blast
  then show ?thesis
    using assms(2-5) len by (simp add: table_at_def)
qed

lemma table_at_f1:
  assumes "0 < WAVETABLE_LENGTH K" and "2 \<le> WAVE_TABLES_PER_WAVEFORM_COUNT K"
    and "table_ok K table"
  shows "table_at table (waveTableBandFromFreq K c freq) (wtSample_f1 K p)
         = Some (table ! nat (waveTableBandFromFreq K c freq) ! nat (wtSample_f1 K p))"
  using band_range [OF assms(2), of c freq] f1_range [OF assms(1), of p]
  by (intro table_at_ok [OF assms(3)]) auto

lemma table_at_f2:
  assumes "0 < WAVETABLE_LENGTH K" and "2 \<le> WAVE_TABLES_PER_WAVEFORM_COUNT K"
    and "table_ok K table"
  shows "table_at table (waveTableBandFromFreq K c freq) (wtSample_f2 K p)
         = Some (table ! nat (waveTableBandFromFreq K c freq) ! nat (wtSample_f2 K p))"
  using band_range [OF assms(2), of c freq] f2_range [OF assms(1), of p]
  by (intro table_at_ok [OF assms(3)]) auto

lemma wtSample_value:
  assumes "0 < WAVETABLE_LENGTH K" and "2 \<le> WAVE_TABLES_PER_WAVEFORM_COUNT K"
    and "table_ok K table"
  shows "wtSample K c osc table p =
         Some (linearInterpolate
           (table ! nat (waveTableBandFromFreq K c (m_freq osc)) ! nat (wtSample_f1 K p))
           (table ! nat (waveTableBandFromFreq K c (m_freq osc)) ! nat (wtSample_f2 K p))
           (fraction (p * of_int (WAVETABLE_LENGTH K))))"
  by (simp add: wtSample_def table_at_f1 [OF assms] table_at_f2 [OF assms]
      wtSample_frame_def Let_def)

lemma linearInterpolate_weighted: "linearInterpolate v0 v1 x = (1 - x) * v0 + x * v1"
  by (simp add: linearInterpolate_def algebra_simps)

text \<open>
  At a phase \<open>p \<ge> 0\<close> the lookup is the one the spec describes: \<open>f1\<close> is the integer
  part of \<open>p * WAVETABLE_LENGTH\<close> modulo the table length, \<open>f2\<close> its successor, and
  the weight the fractional part in [0, 1).
\<close>

lemma wtSample_refines_spec:
  assumes "0 < WAVETABLE_LENGTH K" and "2 \<le> WAVE_TABLES_PER_WAVEFORM_COUNT K"
    and "table_ok K table" and "0 \<le> p"
  shows "wtSample K c osc table p = Some (tableSample_spec K c table (m_freq osc) p)"
proof -
  have "0 \<le> p * of_int (WAVETABLE_LENGTH K)"
    using assms by simp
  then have fr: "fraction (p * of_int (WAVETABLE_LENGTH K)) = frac (p * of_int (WAVETABLE_LENGTH K))"
    by (rule fraction_nonneg)
  show ?thesis
    unfolding wtSample_value [OF assms(1-3)] tableSample_spec_def Let_def fr
      f2_mod [OF assms(1)] f1_nonneg_phase [OF assms(1,4)] linearInterpolate_weighted ..
qed

lemma example_table_ok: "table_ok example_constants example_table"
  by (simp add: table_ok_def example_defs list_all_iff)

lemma example_band:
  "waveTableBandFromFreq example_constants example_cast (m_freq example_osc) = 69"
  using example_bands(1) [of example_cast] by (simp add: example_osc_def)

lemma example_lookup:
  "wtSample example_constants example_cast example_osc example_table (3/8) = Some (555/2)"
  unfolding wtSample_def Let_def example_band
  by (simp add: wtSample_defs example_defs)

lemma example_lookup_negative_phase:
  "wtSample_f1 example_constants (- 3/8) = 3 \<and>
   wtSample_f2 example_constants (- 3/8) = 0 \<and>
   fraction (wtSample_frame example_constants (- 3/8)) = - 1/2 \<and>
   wtSample example_constants example_cast example_osc example_table (- 3/8) = Some (561/2)"
  unfolding wtSample_def Let_def example_band
  by (simp add: wtSample_defs example_defs)

lemma example_spec_lookup_negative_phase:
  "tableSample_spec example_constants example_cast example_table (m_freq example_osc) (- 3/8)
   = 557/2"
  unfolding tableSample_spec_def Let_def example_band
  by (simp add: example_defs frac_def)

text \<open>
  Just below zero, for any table length: at a phase with \<open>-1 < p * WAVETABLE_LENGTH < 0\<close>
  the source reads the slots 0 and 1 with the negative weight \<open>p * WAVETABLE_LENGTH\<close>,
  where the spec's lookup interpolates between the last slot and slot 0.
\<close>

lemma wtSample_small_negative_phase:
  assumes "2 \<le> WAVETABLE_LENGTH K" and "2 \<le> WAVE_TABLES_PER_WAVEFORM_COUNT K"
    and "table_ok K table"
    and "- 1 < p * of_int (WAVETABLE_LENGTH K)" and "p * of_int (WAVETABLE_LENGTH K) < 0"
  shows "wtSample K c osc table p =
           Some (linearInterpolate
             (table ! nat (waveTableBandFromFreq K c (m_freq osc)) ! 0)
             (table ! nat (waveTableBandFromFreq K c (m_freq osc)) ! 1)
             (p * of_int (WAVETABLE_LENGTH K)))"
    and "tableSample_spec K c table (m_freq osc) p =
           linearInterpolate
             (table ! nat (waveTableBandFromFreq K c (m_freq osc)) ! nat (WAVETABLE_LENGTH K - 1))
             (table ! nat (waveTableBandFromFreq K c (m_freq osc)) ! 0)
             (1 + p * of_int (WAVETABLE_LENGTH K))"
proof -
  define t where "t = p * of_int (WAVETABLE_LENGTH K)"
  have t: "- 1 < t" "t < 0"
    using assms(4,5) by (simp_all add: t_def)
  have l: "0 < WAVETABLE_LENGTH K"
    using assms(1) by simp
  have c: "static_cast_int t = 0"
    using t by (simp add: static_cast_int_def ceiling_eq_iff)
  have f1: "wtSample_f1 K p = 0"
    by (simp add: wtSample_f1_def wtSample_frame_def t_def [symmetric] c)
  have f2: "wtSample_f2 K p = 1"
    using assms(1) by (simp add: wtSample_f2_def f1)
  have fr: "fraction t = t"
    by (simp add: fraction_def c)
  show "wtSample K c osc table p =
           Some (linearInterpolate
             (table ! nat (waveTableBandFromFreq K c (m_freq osc)) ! 0)
             (table ! nat (waveTableBandFromFreq K c (m_freq osc)) ! 1)
             (p * of_int (WAVETABLE_LENGTH K)))"
    using wtSample_value [OF l assms(2,3), of c osc p] fr by (simp add: f1 f2 t_def)
  have fl: "\<lfloor>t\<rfloor> = - 1"
    using t by (simp add: floor_eq_iff)
  have i: "\<lfloor>t\<rfloor> mod WAVETABLE_LENGTH K = WAVETABLE_LENGTH K - 1"
    using assms(1) unfolding fl by (simp add: zmod_minus1)
  have w: "frac t = 1 + t"
    by (simp add: frac_def fl)
  show "tableSample_spec K c table (m_freq osc) p =
           linearInterpolate
             (table ! nat (waveTableBandFromFreq K c (m_freq osc)) ! nat (WAVETABLE_LENGTH K - 1))
             (table ! nat (waveTableBandFromFreq K c (m_freq osc)) ! 0)
             (1 + p * of_int (WAVETABLE_LENGTH K))"
    using l by (simp add: tableSample_spec_def Let_def t_def [symmetric] i w linearInterpolate_weighted)
qed

text \<open>
  C7. The claim is for every phase \<open>p\<close>: two adjacent table indices, the second
  wrapped to 0 after the last slot, and the linear interpolation of the two table
  samples, weighted by the fractional part of \<open>p * WAVETABLE_LENGTH\<close>. At a phase
  \<open>p \<ge> 0\<close> this is what \<open>wtSample\<close> returns. At a negative phase the source brings
  the index \<open>f1\<close> back into the table (\<open>f1 += WAVETABLE_LENGTH\<close>), but the index was
  truncated toward zero, not down, and the weight \<open>fraction frame\<close> keeps the sign
  of the phase. At \<open>p = -3/8\<close> with tables of four samples the position is -1.5,
  that is 2.5 in the table: the samples at the indices 2 and 3 of band 69 are 278
  and 279 and the lookup of the spec is 278.5. \<open>wtSample\<close> reads the indices 3 and
  0, the samples 279 and 276, with the weight -1/2, and returns 280.5, which is
  not between the two samples it read; with the weight 1/2 it would be 277.5.
\<close>

theorem wtSample_negative_phase_divergence:
  "wtSample_f1 example_constants (- 3/8) = 3 \<and>
   wtSample_f2 example_constants (- 3/8) = 0 \<and>
   table_at example_table 69 3 = Some 279 \<and>
   table_at example_table 69 0 = Some 276 \<and>
   fraction (wtSample_frame example_constants (- 3/8)) = - 1/2 \<and>
   wtSample example_constants example_cast example_osc example_table (- 3/8) = Some (561/2) \<and>
   tableSample_spec example_constants example_cast example_table (m_freq example_osc) (- 3/8)
     = 557/2 \<and>
   linearInterpolate 279 276 (frac (wtSample_frame example_constants (- 3/8))) = 555/2"
proof -
  have t: "table_at example_table 69 3 = Some 279" "table_at example_table 69 0 = Some 276"
    by (simp_all add: table_at_def example_defs)
  have w: "linearInterpolate 279 276 (frac (wtSample_frame example_constants (- 3/8))) = 555/2"
    by (simp add: linearInterpolate_def wtSample_frame_def example_defs frac_def)
  show ?thesis
    using example_lookup_negative_phase example_spec_lookup_negative_phase t w by blast
qed

text \<open>
  C8. For every input phase fraction, negative ones included, the indices
  \<open>f1\<close> and \<open>f2\<close> of \<open>wtSample\<close> lie in [0, WAVETABLE_LENGTH - 1] and
  the band lies in [1, WAVE_TABLES_PER_WAVEFORM_COUNT - 1]; hence both reads of a
  table of the declared dimensions are inside the array, and \<open>wtSample\<close> returns
  a sample.
\<close>

theorem wtSample_in_bounds:
  assumes "0 < WAVETABLE_LENGTH K" and "2 \<le> WAVE_TABLES_PER_WAVEFORM_COUNT K"
    and "table_ok K table"
  shows "(0 \<le> wtSample_f1 K p \<and> wtSample_f1 K p \<le> WAVETABLE_LENGTH K - 1) \<and>
         (0 \<le> wtSample_f2 K p \<and> wtSample_f2 K p \<le> WAVETABLE_LENGTH K - 1) \<and>
         (1 \<le> waveTableBandFromFreq K c (m_freq osc) \<and>
          waveTableBandFromFreq K c (m_freq osc) \<le> WAVE_TABLES_PER_WAVEFORM_COUNT K - 1) \<and>
         table_at table (waveTableBandFromFreq K c (m_freq osc)) (wtSample_f1 K p) \<noteq> None \<and>
         table_at table (waveTableBandFromFreq K c (m_freq osc)) (wtSample_f2 K p) \<noteq> None \<and>
         wtSample K c osc table p \<noteq> None"
  using f1_range [OF assms(1), of p] f2_range [OF assms(1), of p]
    band_range [OF assms(2), of c "m_freq osc"]
    table_at_f1 [OF assms, of c "m_freq osc" p] table_at_f2 [OF assms, of c "m_freq osc" p]
    wtSample_value [OF assms, of c osc p]
  by simp

theorem wtSample_in_bounds_witness:
  "0 < WAVETABLE_LENGTH example_constants \<and>
   2 \<le> WAVE_TABLES_PER_WAVEFORM_COUNT example_constants \<and>
   table_ok example_constants example_table \<and>
   wtSample_f1 example_constants (- 3/8) = 3 \<and>
   wtSample_f2 example_constants (- 3/8) = 0 \<and>
   waveTableBandFromFreq example_constants example_cast (m_freq example_osc) = 69 \<and>
   wtSample example_constants example_cast example_osc example_table (- 3/8) \<noteq> None"
proof -
  have l: "0 < WAVETABLE_LENGTH example_constants"
    and c: "2 \<le> WAVE_TABLES_PER_WAVEFORM_COUNT example_constants"
    by (simp_all add: example_defs)
  show ?thesis
    using l c example_band example_lookup_negative_phase
      wtSample_in_bounds [OF l c example_table_ok, of "- 3/8" example_cast example_osc]
    by (simp add: example_table_ok)
qed

end
